theory Spec2Isabelle
  imports Complex_Main "HOL-Library.Multiset"
begin

section \<open>The scanner engine of miniscan: data model\<close>

text \<open>
  The engine is the script that \<open>getScannerHtml\<close> places in a WebView. Its numbers
  are JavaScript doubles; they are modelled here as exact real numbers, so every theorem
  below is a statement about the arithmetic the script writes down, not about IEEE-754
  rounding. Where JavaScript and HOL disagree on an operation (division by zero, a read
  past the end of an array) the model spells out what the script does.

  A point is the two-element array \<open>[x, y]\<close> of the script: \<open>p[0]\<close> is \<open>fst p\<close> and
  \<open>p[1]\<close> is \<open>snd p\<close>.
\<close>

type_synonym point = "real \<times> real"

subsection \<open>orderCorners\<close>

text \<open>
  \<open>Array.prototype.sort\<close> with the comparator \<open>a[k] - b[k]\<close> is a stable sort by the
  key \<open>k\<close>; \<open>sort_key\<close> is the stable insertion sort of the list library.
  \<open>slice(0, 2)\<close> is \<open>take 2\<close> and \<open>slice(2, 4)\<close> is \<open>take 2 \<circ> drop 2\<close>. Every caller
  passes exactly four points; on a shorter list the script would return \<open>undefined\<close>
  entries, which the model does not represent.
\<close>

definition orderCorners :: "point list \<Rightarrow> point list" where
  "orderCorners pts =
     (let sorted = sort_key snd pts;
          top = sort_key fst (take 2 sorted);
          bot = sort_key fst (take 2 (drop 2 sorted))
      in [top ! 0, top ! 1, bot ! 1, bot ! 0])"


subsection \<open>contourArea, isConvex, validateQuad\<close>

text \<open>
  \<open>contourArea\<close> is the shoelace sum over the closed polygon. In \<open>isConvex\<close> and
  \<open>validateQuad\<close> the \<open>for\<close> loop with its early \<open>return false\<close> is a recursion over
  the indices \<open>0, \<dots>, n - 1\<close>; \<open>(i - 1 + n) % n\<close> is written \<open>(i + n - 1) mod n\<close>, which
  is the same natural number. \<open>1e-6\<close> is \<open>1 / 10 ^ 6\<close>.

  In \<open>validateQuad\<close> the quotient \<open>dot / (len1 * len2)\<close> is \<open>NaN\<close> when an edge has length
  zero (then \<open>dot\<close> is zero as well); \<open>Math.max\<close>, \<open>Math.min\<close> and \<open>Math.acos\<close> pass
  \<open>NaN\<close> on and both comparisons with it are false, so the loop goes on to the next
  vertex. That branch is written out.
\<close>

definition contourArea :: "point list \<Rightarrow> real" where
  "contourArea pts =
     \<bar>foldl (\<lambda>area i.
              let j = (i + 1) mod length pts
              in area + fst (pts ! i) * snd (pts ! j) - fst (pts ! j) * snd (pts ! i))
            0 [0..<length pts]\<bar> / 2"

fun isConvex_loop :: "point list \<Rightarrow> int \<Rightarrow> nat list \<Rightarrow> bool" where
  "isConvex_loop pts sign [] = (sign \<noteq> 0)"
| "isConvex_loop pts sign (i # is) =
     (let n = length pts;
          a = pts ! i; b = pts ! ((i + 1) mod n); c = pts ! ((i + 2) mod n);
          cross = (fst b - fst a) * (snd c - snd b) - (snd b - snd a) * (fst c - fst b)
      in if \<bar>cross\<bar> < 1 / 10 ^ 6 then isConvex_loop pts sign is
         else if sign = 0 then isConvex_loop pts (if cross > 0 then 1 else - 1) is
         else if (if cross > 0 then 1 else - 1) \<noteq> sign then False
         else isConvex_loop pts sign is)"

definition isConvex :: "point list \<Rightarrow> bool" where
  "isConvex pts =
     (let n = length pts
      in if n < 3 then False else isConvex_loop pts 0 [0..<n])"

definition validateQuad_body :: "point list \<Rightarrow> real \<Rightarrow> nat \<Rightarrow> bool" where
  "validateQuad_body pts minEdge i =
     (let n = length pts;
          a = pts ! ((i + n - 1) mod n); b = pts ! i; c = pts ! ((i + 1) mod n);
          v1x = fst a - fst b; v1y = snd a - snd b;
          v2x = fst c - fst b; v2y = snd c - snd b;
          len1 = sqrt (v1x * v1x + v1y * v1y);
          len2 = sqrt (v2x * v2x + v2y * v2y)
      in if len1 < minEdge \<or> len2 < minEdge then False
         else if len1 * len2 = 0 then True
         else
           let dot = v1x * v2x + v1y * v2y;
               cosAngle = max (- 1) (min 1 (dot / (len1 * len2)));
               angle = arccos cosAngle * 180 / pi
           in if angle < 30 \<or> angle > 150 then False else True)"

fun validateQuad_loop :: "point list \<Rightarrow> real \<Rightarrow> nat list \<Rightarrow> bool" where
  "validateQuad_loop pts minEdge [] = True"
| "validateQuad_loop pts minEdge (i # is) =
     (if validateQuad_body pts minEdge i then validateQuad_loop pts minEdge is else False)"

definition validateQuad :: "point list \<Rightarrow> nat \<Rightarrow> nat \<Rightarrow> bool" where
  "validateQuad pts w h =
     (if \<not> isConvex pts then False
      else if contourArea pts < 0.1 * real w * real h then False
      else validateQuad_loop pts (real (min w h) * 0.1) [0..<length pts])"

text \<open>
  The angle at the vertex \<open>b\<close> between the edges to its neighbours \<open>a\<close> and \<open>c\<close>, in
  degrees, as geometry defines it (no clamping of the cosine). The properties below are
  stated with it.
\<close>

definition cornerAngle :: "point \<Rightarrow> point \<Rightarrow> point \<Rightarrow> real" where
  "cornerAngle a b c =
     arccos (((fst a - fst b) * (fst c - fst b) + (snd a - snd b) * (snd c - snd b)) /
             (sqrt ((fst a - fst b)\<^sup>2 + (snd a - snd b)\<^sup>2) *
              sqrt ((fst c - fst b)\<^sup>2 + (snd c - snd b)\<^sup>2))) * 180 / pi"


subsection \<open>bilinear and warp\<close>

text \<open>
  The source pixels are the bytes of an \<open>ImageData\<close> buffer, four per pixel. A read past
  the buffer is \<open>undefined\<close> in the script and turns the interpolated value into \<open>NaN\<close>;
  \<open>None\<close> stands for \<open>NaN\<close>. A store into a \<open>Uint8ClampedArray\<close> writes \<open>0\<close> for \<open>NaN\<close>
  and otherwise clamps to \<open>0..255\<close> and rounds to the nearest integer, ties to even.
\<close>

definition js_read :: "nat list \<Rightarrow> int \<Rightarrow> real option" where
  "js_read s k = (if 0 \<le> k \<and> nat k < length s then Some (real (s ! nat k)) else None)"

definition toUint8Clamped :: "real option \<Rightarrow> nat" where
  "toUint8Clamped v =
     (case v of
        None \<Rightarrow> 0
      | Some r \<Rightarrow>
          if r \<le> 0 then 0
          else if 255 \<le> r then 255
          else let f = \<lfloor>r\<rfloor>; d = r - of_int f
               in nat (if d < 1 / 2 then f
                       else if 1 / 2 < d then f + 1
                       else if even f then f else f + 1))"

definition bilinear :: "nat list \<Rightarrow> nat \<Rightarrow> nat \<Rightarrow> real \<Rightarrow> real \<Rightarrow> real option list" where
  "bilinear srcData sw sh x y =
     (let x0 = \<lfloor>x\<rfloor>; y0 = \<lfloor>y\<rfloor>;
          x1 = min (x0 + 1) (int sw - 1); y1 = min (y0 + 1) (int sh - 1);
          x0 = max 0 x0; y0 = max 0 y0;
          fx = x - of_int \<lfloor>x\<rfloor>; fy = y - of_int \<lfloor>y\<rfloor>;
          idx00 = (y0 * int sw + x0) * 4; idx10 = (y0 * int sw + x1) * 4;
          idx01 = (y1 * int sw + x0) * 4; idx11 = (y1 * int sw + x1) * 4
      in map (\<lambda>c.
            case (js_read srcData (idx00 + c), js_read srcData (idx10 + c),
                  js_read srcData (idx01 + c), js_read srcData (idx11 + c)) of
              (Some s00, Some s10, Some s01, Some s11) \<Rightarrow>
                Some (s00 * (1 - fx) * (1 - fy) + s10 * fx * (1 - fy)
                      + s01 * (1 - fx) * fy + s11 * fx * fy)
            | _ \<Rightarrow> None)
          [0, 1, 2])"

text \<open>
  \<open>warp\<close> allocates a zero-filled \<open>Uint8ClampedArray\<close> and runs two nested loops, \<open>dy\<close>
  outside and \<open>dx\<close> inside. \<open>warp_pixel\<close> is the loop body: the array stores
  \<open>out[k] = v\<close> it performs, in order, as pairs \<open>(k, v)\<close>. When the divisor \<open>w\<close> is zero
  the script's \<open>sx\<close> and \<open>sy\<close> are infinite or \<open>NaN\<close> and the bounds test fails; HOL's
  \<open>x / 0 = 0\<close> would pass it, so the test on \<open>w\<close> is written out in \<open>inSource\<close>.
\<close>

definition inSource :: "nat \<Rightarrow> nat \<Rightarrow> real list \<Rightarrow> nat \<Rightarrow> nat \<Rightarrow> bool" where
  "inSource sw sh H_inv dy dx =
     (let w = H_inv ! 6 * real dx + H_inv ! 7 * real dy + H_inv ! 8;
          sx = (H_inv ! 0 * real dx + H_inv ! 1 * real dy + H_inv ! 2) / w;
          sy = (H_inv ! 3 * real dx + H_inv ! 4 * real dy + H_inv ! 5) / w
      in w \<noteq> 0 \<and> sx \<ge> 0 \<and> sx < real sw \<and> sy \<ge> 0 \<and> sy < real sh)"

definition warp_pixel ::
  "nat list \<Rightarrow> nat \<Rightarrow> nat \<Rightarrow> real list \<Rightarrow> nat \<Rightarrow> nat \<Rightarrow> nat \<Rightarrow> (nat \<times> nat) list" where
  "warp_pixel srcData sw sh H_inv dw dy dx =
     (let w = H_inv ! 6 * real dx + H_inv ! 7 * real dy + H_inv ! 8;
          sx = (H_inv ! 0 * real dx + H_inv ! 1 * real dy + H_inv ! 2) / w;
          sy = (H_inv ! 3 * real dx + H_inv ! 4 * real dy + H_inv ! 5) / w;
          idx = (dy * dw + dx) * 4
      in (if inSource sw sh H_inv dy dx
          then let rgb = bilinear srcData sw sh sx sy
               in [(idx, toUint8Clamped (rgb ! 0)),
                   (idx + 1, toUint8Clamped (rgb ! 1)),
                   (idx + 2, toUint8Clamped (rgb ! 2))]
          else [])
         @ [(idx + 3, 255)])"

definition warp_stores ::
  "nat list \<Rightarrow> nat \<Rightarrow> nat \<Rightarrow> real list \<Rightarrow> nat \<Rightarrow> nat \<Rightarrow> (nat \<times> nat) list" where
  "warp_stores srcData sw sh H_inv dw dh =
     concat (map (\<lambda>dy. concat (map (\<lambda>dx. warp_pixel srcData sw sh H_inv dw dy dx) [0..<dw]))
                 [0..<dh])"

definition store :: "nat list \<Rightarrow> nat \<times> nat \<Rightarrow> nat list" where
  "store out kv = out[fst kv := snd kv]"

definition warp :: "nat list \<Rightarrow> nat \<Rightarrow> nat \<Rightarrow> real list \<Rightarrow> nat \<Rightarrow> nat \<Rightarrow> nat list" where
  "warp srcData sw sh H_inv dw dh =
     foldl store (replicate (dw * dh * 4) 0) (warp_stores srcData sw sh H_inv dw dh)"

text \<open>
  The bytes of the output that the loop body stores for pixel number \<open>p\<close>, in order:
  the three colour bytes when the source coordinate is inside the image, then alpha.
\<close>

definition pixel_bytes :: "bool \<Rightarrow> nat \<Rightarrow> nat list" where
  "pixel_bytes ins p = (if ins then [4 * p, 4 * p + 1, 4 * p + 2] else []) @ [4 * p + 3]"


subsection \<open>solve, computeHomography, invert3x3\<close>

text \<open>
  \<open>solve\<close> copies \<open>A\<close> and \<open>b\<close> into the augmented matrix \<open>M\<close> (a list of rows) and
  eliminates column by column with partial pivoting; a pivot of magnitude below \<open>1e-10\<close>
  makes it return \<open>null\<close>, here \<open>None\<close>. \<open>1e-10\<close> is \<open>1 / 10 ^ 10\<close>. Back-substitution
  runs from the last row to the first.
\<close>

definition augment :: "real list list \<Rightarrow> real list \<Rightarrow> real list list" where
  "augment A b = map (\<lambda>i. A ! i @ [b ! i]) [0..<length b]"

definition findMaxRow :: "real list list \<Rightarrow> nat \<Rightarrow> nat \<Rightarrow> nat" where
  "findMaxRow M n col =
     foldl (\<lambda>maxRow row. if \<bar>M ! row ! col\<bar> > \<bar>M ! maxRow ! col\<bar> then row else maxRow)
           col [col + 1..<n]"

definition swapRows :: "real list list \<Rightarrow> nat \<Rightarrow> nat \<Rightarrow> real list list" where
  "swapRows M col maxRow = (M[col := M ! maxRow])[maxRow := M ! col]"

definition eliminateRow :: "nat \<Rightarrow> nat \<Rightarrow> real list list \<Rightarrow> nat \<Rightarrow> real list list" where
  "eliminateRow n col M row =
     (let f = M ! row ! col / M ! col ! col
      in M[row := foldl (\<lambda>r j. r[j := r ! j - f * M ! col ! j]) (M ! row) [col..<n + 1]])"

definition eliminateColumn :: "nat \<Rightarrow> real list list \<Rightarrow> nat \<Rightarrow> real list list option" where
  "eliminateColumn n M col =
     (let maxRow = findMaxRow M n col;
          M = swapRows M col maxRow
      in if \<bar>M ! col ! col\<bar> < 1 / 10 ^ 10 then None
         else Some (foldl (eliminateRow n col) M [col + 1..<n]))"

fun eliminate :: "nat \<Rightarrow> real list list \<Rightarrow> nat list \<Rightarrow> real list list option" where
  "eliminate n M [] = Some M"
| "eliminate n M (col # cols) =
     (case eliminateColumn n M col of
        None \<Rightarrow> None
      | Some M' \<Rightarrow> eliminate n M' cols)"

definition backSubstituteRow :: "nat \<Rightarrow> real list list \<Rightarrow> real list \<Rightarrow> nat \<Rightarrow> real list" where
  "backSubstituteRow n M x i =
     (let xi = foldl (\<lambda>xi j. xi - M ! i ! j * x ! j) (M ! i ! n) [i + 1..<n]
      in x[i := xi / M ! i ! i])"

definition solve :: "real list list \<Rightarrow> real list \<Rightarrow> real list option" where
  "solve A b =
     (let n = length b
      in case eliminate n (augment A b) [0..<n] of
           None \<Rightarrow> None
         | Some M \<Rightarrow> Some (foldl (backSubstituteRow n M) (replicate n 0) (rev [0..<n])))"

text \<open>
  \<open>computeHomography\<close> pushes two equations per point pair; \<open>srcPts\<close> and \<open>dstPts\<close> hold
  four points each.
\<close>

definition homographyRows :: "point \<Rightarrow> point \<Rightarrow> real list list" where
  "homographyRows s d =
     (let sx = fst s; sy = snd s; dx = fst d; dy = snd d
      in [[sx, sy, 1, 0, 0, 0, - dx * sx, - dx * sy],
          [0, 0, 0, sx, sy, 1, - dy * sx, - dy * sy]])"

definition computeHomography :: "point list \<Rightarrow> point list \<Rightarrow> real list option" where
  "computeHomography srcPts dstPts =
     (let A = concat (map (\<lambda>i. homographyRows (srcPts ! i) (dstPts ! i)) [0..<4]);
          b = concat (map (\<lambda>i. [fst (dstPts ! i), snd (dstPts ! i)]) [0..<4])
      in case solve A b of
           None \<Rightarrow> None
         | Some h \<Rightarrow> Some [h ! 0, h ! 1, h ! 2, h ! 3, h ! 4, h ! 5, h ! 6, h ! 7, 1])"

definition invert3x3 :: "real list \<Rightarrow> real list option" where
  "invert3x3 m =
     (let a = m ! 0; b = m ! 1; c = m ! 2; d = m ! 3; e = m ! 4; f = m ! 5;
          g = m ! 6; h = m ! 7; k = m ! 8;
          det = a * (e * k - f * h) - b * (d * k - f * g) + c * (d * h - e * g)
      in if \<bar>det\<bar> < 1 / 10 ^ 10 then None
         else let inv = 1 / det
              in Some [(e * k - f * h) * inv, (c * h - b * k) * inv, (b * f - c * e) * inv,
                       (f * g - d * k) * inv, (a * k - c * g) * inv, (c * d - a * f) * inv,
                       (d * h - e * g) * inv, (b * g - a * h) * inv, (a * e - b * d) * inv])"







subsection \<open>toGray, adaptiveThreshold, enhanceBW\<close>

text \<open>
  The pixel buffer \<open>data\<close> is a \<open>Uint8ClampedArray\<close> of \<open>4 * w * h\<close> bytes; every caller
  passes the buffer that \<open>warp\<close> returned for the same \<open>w\<close> and \<open>h\<close>, so no read is out
  of range. \<open>adaptiveThreshold\<close> first fills the summed-area table \<open>integral\<close>, of
  \<open>(w + 1) * (h + 1)\<close> zero-initialised entries, row by row with a running \<open>rowSum\<close>;
  then it writes \<open>out[y * w + x]\<close> for \<open>y\<close> and \<open>x\<close> ascending, which is the list of the
  rows' values in order. \<open>Math.max(0, x - half)\<close> is the truncating subtraction
  \<open>x - half\<close> of natural numbers.
\<close>

definition toGray :: "nat list \<Rightarrow> nat \<Rightarrow> nat \<Rightarrow> real list" where
  "toGray data w h =
     map (\<lambda>i. 0.299 * real (data ! (i * 4)) + 0.587 * real (data ! (i * 4 + 1))
              + 0.114 * real (data ! (i * 4 + 2)))
         [0..<w * h]"

definition integralStep ::
  "real list \<Rightarrow> nat \<Rightarrow> nat \<Rightarrow> real \<times> real list \<Rightarrow> nat \<Rightarrow> real \<times> real list" where
  "integralStep gray w y st x =
     (let rowSum = fst st + gray ! (y * w + x);
          integral = snd st
      in (rowSum,
          integral[(y + 1) * (w + 1) + (x + 1) := integral ! (y * (w + 1) + (x + 1)) + rowSum]))"

definition integralRow :: "real list \<Rightarrow> nat \<Rightarrow> real list \<Rightarrow> nat \<Rightarrow> real list" where
  "integralRow gray w integral y = snd (foldl (integralStep gray w y) (0, integral) [0..<w])"

definition integralImage :: "real list \<Rightarrow> nat \<Rightarrow> nat \<Rightarrow> real list" where
  "integralImage gray w h =
     foldl (integralRow gray w) (replicate ((w + 1) * (h + 1)) 0) [0..<h]"

definition thresholdPixel ::
  "real list \<Rightarrow> real list \<Rightarrow> nat \<Rightarrow> nat \<Rightarrow> nat \<Rightarrow> real \<Rightarrow> nat \<Rightarrow> nat \<Rightarrow> nat" where
  "thresholdPixel gray integral w h half C y x =
     (let x1 = x - half; y1 = y - half;
          x2 = min (w - 1) (x + half); y2 = min (h - 1) (y + half);
          area = real ((x2 - x1 + 1) * (y2 - y1 + 1));
          sum = integral ! ((y2 + 1) * (w + 1) + (x2 + 1)) - integral ! (y1 * (w + 1) + (x2 + 1))
                - integral ! ((y2 + 1) * (w + 1) + x1) + integral ! (y1 * (w + 1) + x1);
          mean = sum / area
      in if gray ! (y * w + x) < mean - C then 0 else 255)"

definition adaptiveThreshold ::
  "real list \<Rightarrow> nat \<Rightarrow> nat \<Rightarrow> nat \<Rightarrow> real \<Rightarrow> nat list" where
  "adaptiveThreshold gray w h blockSize C =
     (let integral = integralImage gray w h;
          half = blockSize div 2
      in concat (map (\<lambda>y. map (\<lambda>x. thresholdPixel gray integral w h half C y x) [0..<w])
                     [0..<h]))"

text \<open>
  \<open>n | 1\<close> sets the lowest bit of a non-negative integer below \<open>2^31\<close>. The chained
  assignment \<open>data[i*4] = data[i*4+1] = data[i*4+2] = bw[i]\<close> stores from right to left.
\<close>

definition orOne :: "int \<Rightarrow> int" where
  "orOne n = (if even n then n + 1 else n)"

definition enhanceBW :: "nat list \<Rightarrow> nat \<Rightarrow> nat \<Rightarrow> nat list" where
  "enhanceBW data w h =
     (let gray = toGray data w h;
          blockSize = max 15 (orOne (round (real (min w h) / 8)));
          blockSize = (if blockSize mod 2 = 0 then blockSize + 1 else blockSize);
          bw = adaptiveThreshold gray w h (nat blockSize) 10
      in foldl (\<lambda>data i. data[i * 4 + 2 := bw ! i, i * 4 + 1 := bw ! i, i * 4 := bw ! i])
               data [0..<w * h])"


subsection \<open>Corners, enhanceGray, enhanceColor, processImage\<close>

text \<open>
  The object \<open>{tl, tr, br, bl}\<close> of normalised points \<open>{x, y}\<close>; the field names carry a
  suffix because \<open>tl\<close> is the tail of a list in HOL.
\<close>

record corners =
  tl_pt :: point
  tr_pt :: point
  br_pt :: point
  bl_pt :: point

text \<open>
  A decoded image: its size and the bytes that \<open>drawImage\<close> and \<open>getImageData\<close> give
  at that size.
\<close>

record bitmap =
  bmpWidth :: nat
  bmpHeight :: nat
  bmpData :: "nat list"

definition dist_pt :: "point \<Rightarrow> point \<Rightarrow> real" where
  "dist_pt p1 p2 =
     sqrt ((fst p1 - fst p2) * (fst p1 - fst p2) + (snd p1 - snd p2) * (snd p1 - snd p2))"

text \<open>
  \<open>enhanceGray\<close> and \<open>enhanceColor\<close> stretch between the values at the 1st and the 99th
  percentile of the sorted samples; both are called with at least \<open>50 * 50\<close> pixels, so
  the two reads of \<open>sorted\<close> are in range. \<open>hi - lo || 1\<close> is \<open>1\<close> when the difference is
  zero. \<open>Math.round\<close> is \<open>round\<close>, and \<open>Math.pow\<close> on a base in \<open>[0, 1]\<close> is \<open>powr\<close>.
\<close>

definition stretchRange :: "real list \<Rightarrow> real \<times> real" where
  "stretchRange samples =
     (let sorted = sort samples;
          lo = sorted ! nat \<lfloor>real (length sorted) * 0.01\<rfloor>;
          hi = sorted ! nat \<lfloor>real (length sorted) * 0.99\<rfloor>
      in (lo, if hi - lo = 0 then 1 else hi - lo))"

definition clamp255 :: "real \<Rightarrow> real" where
  "clamp255 v = (if v < 0 then 0 else if v > 255 then 255 else v)"

definition enhanceGray :: "nat list \<Rightarrow> nat \<Rightarrow> nat \<Rightarrow> nat list" where
  "enhanceGray data w h =
     (let gray = toGray data w h;
          (lo, range) = stretchRange gray
      in foldl (\<lambda>data i.
                  let v = nat \<lfloor>clamp255 (real_of_int (round (((gray ! i - lo) / range) * 255)))\<rfloor>
                  in data[i * 4 + 2 := v, i * 4 + 1 := v, i * 4 := v])
               data [0..<w * h])"

definition enhanceChannel :: "nat \<Rightarrow> nat list \<Rightarrow> nat \<Rightarrow> nat list" where
  "enhanceChannel n data c =
     (let ch = map (\<lambda>i. real (data ! (i * 4 + c))) [0..<n];
          (lo, range) = stretchRange ch
      in foldl (\<lambda>data i.
                  let v = clamp255 (((ch ! i - lo) / range) * 255);
                      v = round ((v / 255) powr 0.85 * 255)
                  in data[i * 4 + c := nat v])
               data [0..<n])"

definition enhanceColor :: "nat list \<Rightarrow> nat \<Rightarrow> nat \<Rightarrow> nat list" where
  "enhanceColor data w h = foldl (enhanceChannel (w * h)) data [0, 1, 2]"

definition enhance :: "string \<Rightarrow> nat list \<Rightarrow> nat \<Rightarrow> nat \<Rightarrow> nat list" where
  "enhance mode data w h =
     (if mode = ''bw'' then enhanceBW data w h
      else if mode = ''gray'' then enhanceGray data w h
      else enhanceColor data w h)"

text \<open>
  \<open>processImage\<close>, from the decoded bitmap on. The two \<open>throw new Error(...)\<close> are the
  \<open>Inl\<close> results, each with the message of the error. The result carries the enhanced
  pixel buffer, which the script then encodes as a PNG, under the field names of the
  script's result object with the prefix \<open>res_\<close>. \<open>dist\<close> is named \<open>dist_pt\<close> here.
\<close>

record processed =
  res_pixels :: "nat list"
  res_width :: nat
  res_height :: nat
  res_srcWidth :: nat
  res_srcHeight :: nat

definition scaledCorners :: "corners \<Rightarrow> nat \<Rightarrow> nat \<Rightarrow> point list" where
  "scaledCorners c sw sh =
     [(fst (tl_pt c) * real sw, snd (tl_pt c) * real sh),
      (fst (tr_pt c) * real sw, snd (tr_pt c) * real sh),
      (fst (br_pt c) * real sw, snd (br_pt c) * real sh),
      (fst (bl_pt c) * real sw, snd (bl_pt c) * real sh)]"

definition outputSize :: "point list \<Rightarrow> int \<Rightarrow> nat \<times> nat" where
  "outputSize srcPts minSide =
     (let tl = srcPts ! 0; tr = srcPts ! 1; br = srcPts ! 2; bl = srcPts ! 3;
          dw = round (max (dist_pt tl tr) (dist_pt bl br));
          dh = round (max (dist_pt tl bl) (dist_pt tr br))
      in (nat (max dw minSide), nat (max dh minSide)))"

definition processImage :: "bitmap \<Rightarrow> corners \<Rightarrow> string \<Rightarrow> string + processed" where
  "processImage bmp c mode =
     (let sw = bmpWidth bmp; sh = bmpHeight bmp; srcData = bmpData bmp;
          srcPts = scaledCorners c sw sh;
          (dw, dh) = outputSize srcPts 100;
          dstPts = [(0, 0), (real dw, 0), (real dw, real dh), (0, real dh)]
      in case computeHomography srcPts dstPts of
           None \<Rightarrow> Inl ''Failed to compute homography''
         | Some H \<Rightarrow>
             (case invert3x3 H of
                None \<Rightarrow> Inl ''Failed to invert homography''
              | Some H_inv \<Rightarrow>
                  let warped = warp srcData sw sh H_inv dw dh
                  in Inr \<lparr>res_pixels = enhance mode warped dw dh, res_width = dw,
                          res_height = dh, res_srcWidth = sw, res_srcHeight = sh\<rparr>))"



subsection \<open>The boundary-detection cascade\<close>

text \<open>
  Every strategy ends with the same object literal: the four points divided by the image
  size and clamped to \<open>[0, 1]\<close>. \<open>w\<close> and \<open>h\<close> are positive wherever it is reached.
\<close>

definition clamp01 :: "real \<Rightarrow> real" where
  "clamp01 v = max 0 (min 1 v)"

definition normalizedCorners :: "point list \<Rightarrow> nat \<Rightarrow> nat \<Rightarrow> corners" where
  "normalizedCorners q w h =
     \<lparr>tl_pt = (clamp01 (fst (q ! 0) / real w), clamp01 (snd (q ! 0) / real h)),
      tr_pt = (clamp01 (fst (q ! 1) / real w), clamp01 (snd (q ! 1) / real h)),
      br_pt = (clamp01 (fst (q ! 2) / real w), clamp01 (snd (q ! 2) / real h)),
      bl_pt = (clamp01 (fst (q ! 3) / real w), clamp01 (snd (q ! 3) / real h))\<rparr>"

text \<open>
  The image passes of the strategies (blur, gradients, histogram peaks, RANSAC with
  \<open>Math.random\<close>, Otsu threshold, morphology, component labelling, convex hull,
  Douglas-Peucker, Canny, Hough accumulator) are parameters of the model: what is
  modelled of each strategy is everything from its candidate polygons or lines to the
  value it returns.
  \<^item> \<open>ransacCorners\<close>: for each magnitude threshold that the loop of
    \<open>gradientRansacDetection\<close> reaches, the list \<open>corners\<close> of line intersections when
    all of them exist, or \<open>None\<close> when that iteration ends in a \<open>continue\<close> before; the
    empty list when the function returns \<open>null\<close> before the loop.
  \<^item> \<open>segmentApprox\<close>, \<open>contourApprox\<close>: for each polarity (each dilation radius)
    the polygons \<open>approx\<close> that \<open>douglasPeucker\<close> returns, in the order in which the loops
    over components and epsilons produce them.
  \<^item> \<open>cannyEdges\<close>, \<open>houghLines\<close>: the edge map and the lines sorted by votes.
\<close>

record hline =
  rho :: real
  theta :: real
  votes :: nat

record passes =
  ransacCorners :: "real list \<Rightarrow> nat \<Rightarrow> nat \<Rightarrow> point list option list"
  segmentApprox :: "real list \<Rightarrow> nat \<Rightarrow> nat \<Rightarrow> point list list list"
  cannyEdges :: "real list \<Rightarrow> nat \<Rightarrow> nat \<Rightarrow> nat list"
  contourApprox :: "nat list \<Rightarrow> nat \<Rightarrow> nat \<Rightarrow> point list list list"
  houghLines :: "nat list \<Rightarrow> nat \<Rightarrow> nat \<Rightarrow> hline list"

text \<open>The end of one iteration of the threshold loop of \<open>gradientRansacDetection\<close>.\<close>

definition cornersInBounds :: "point list \<Rightarrow> nat \<Rightarrow> nat \<Rightarrow> bool" where
  "cornersInBounds corners w h =
     (let margin = real (max w h) * 0.15
      in \<forall>i \<in> set [0..<4].
           \<not> (fst (corners ! i) < - margin \<or> fst (corners ! i) > real w + margin \<or>
              snd (corners ! i) < - margin \<or> snd (corners ! i) > real h + margin))"

fun ransacSelect :: "nat \<Rightarrow> nat \<Rightarrow> point list option list \<Rightarrow> corners option" where
  "ransacSelect w h [] = None"
| "ransacSelect w h (None # rest) = ransacSelect w h rest"
| "ransacSelect w h (Some corners # rest) =
     (if length corners \<noteq> 4 then ransacSelect w h rest
      else if \<not> cornersInBounds corners w h then ransacSelect w h rest
      else if \<not> validateQuad (orderCorners corners) w h then ransacSelect w h rest
      else Some (normalizedCorners (orderCorners corners) w h))"

definition gradientRansacDetection :: "passes \<Rightarrow> real list \<Rightarrow> nat \<Rightarrow> nat \<Rightarrow> corners option" where
  "gradientRansacDetection P gray w h = ransacSelect w h (ransacCorners P gray w h)"

text \<open>
  \<open>segmentBasedDetection\<close> and \<open>contourBasedDetection\<close> share the text that keeps the
  valid quad of largest area: a polygon of four points is tried as it is, one of five
  points with each vertex left out in turn. The state is \<open>(bestQuad, bestArea)\<close>. The
  outer loop stops after the first polarity (radius) that leaves a \<open>bestQuad\<close>.
\<close>

definition considerQuad ::
  "nat \<Rightarrow> nat \<Rightarrow> point list option \<times> real \<Rightarrow> point list \<Rightarrow> point list option \<times> real" where
  "considerQuad w h st quad =
     (if validateQuad quad w h
      then let area = contourArea quad
           in if area > snd st then (Some quad, area) else st
      else st)"

definition considerApprox ::
  "nat \<Rightarrow> nat \<Rightarrow> point list option \<times> real \<Rightarrow> point list \<Rightarrow> point list option \<times> real" where
  "considerApprox w h st approx =
     (if length approx = 4 then considerQuad w h st approx
      else if length approx = 5
      then foldl (\<lambda>st skip. considerQuad w h st
                    (map (\<lambda>k. approx ! k) (filter (\<lambda>k. k \<noteq> skip) [0..<5])))
                 st [0..<5]
      else st)"

fun bestOverRounds ::
  "nat \<Rightarrow> nat \<Rightarrow> point list option \<times> real \<Rightarrow> point list list list \<Rightarrow> point list option \<times> real" where
  "bestOverRounds w h st [] = st"
| "bestOverRounds w h st (approxs # rest) =
     (let st' = foldl (considerApprox w h) st approxs
      in if fst st' \<noteq> None then st' else bestOverRounds w h st' rest)"

definition selectBestQuad :: "nat \<Rightarrow> nat \<Rightarrow> point list list list \<Rightarrow> corners option" where
  "selectBestQuad w h rounds =
     (case fst (bestOverRounds w h (None, 0) rounds) of
        None \<Rightarrow> None
      | Some bestQuad \<Rightarrow> Some (normalizedCorners (orderCorners bestQuad) w h))"

definition segmentBasedDetection :: "passes \<Rightarrow> real list \<Rightarrow> nat \<Rightarrow> nat \<Rightarrow> corners option" where
  "segmentBasedDetection P gray w h = selectBestQuad w h (segmentApprox P gray w h)"

definition contourBasedDetection :: "passes \<Rightarrow> nat list \<Rightarrow> nat \<Rightarrow> nat \<Rightarrow> corners option" where
  "contourBasedDetection P edges w h = selectBestQuad w h (contourApprox P edges w h)"

text \<open>
  \<open>lineIntersection\<close> and \<open>findBestQuad\<close>, on the lines that \<open>houghLines\<close> returns: their
  \<open>theta\<close> lies in \<open>[0, \<pi>)\<close>, so the sine of a line classed horizontal and the cosine of
  one classed vertical are not zero. The two scoring loops of the script differ only in
  that one divides \<open>rho\<close> by the sine and the other by the cosine; \<open>pos\<close> is that quotient.
  \<open>maxSpread || 1\<close> is \<open>1\<close> when \<open>maxSpread\<close> is zero.
\<close>

definition lineIntersection :: "hline \<Rightarrow> hline \<Rightarrow> point option" where
  "lineIntersection l1 l2 =
     (let cos1 = cos (theta l1); sin1 = sin (theta l1);
          cos2 = cos (theta l2); sin2 = sin (theta l2);
          det = cos1 * sin2 - cos2 * sin1
      in if \<bar>det\<bar> < 1 / 10 ^ 10 then None
         else Some ((rho l1 * sin2 - rho l2 * sin1) / det, (rho l2 * cos1 - rho l1 * cos2) / det))"

definition pairIndices :: "nat \<Rightarrow> (nat \<times> nat) list" where
  "pairIndices n = concat (map (\<lambda>i. map (\<lambda>j. (i, j)) [i + 1..<n]) [0..<n])"

definition maxSpread :: "(hline \<Rightarrow> real) \<Rightarrow> hline list \<Rightarrow> real" where
  "maxSpread pos ls =
     foldl (\<lambda>m ij. let d = \<bar>pos (ls ! fst ij) - pos (ls ! snd ij)\<bar> in if d > m then d else m)
           0 (pairIndices (length ls))"

definition bestPairStep ::
  "(hline \<Rightarrow> real) \<Rightarrow> hline list \<Rightarrow> real \<Rightarrow> (hline \<times> hline) option \<times> real \<Rightarrow> nat \<times> nat
     \<Rightarrow> (hline \<times> hline) option \<times> real" where
  "bestPairStep pos ls maxS st ij =
     (let li = ls ! fst ij; lj = ls ! snd ij;
          p1 = pos li; p2 = pos lj;
          spread = \<bar>p1 - p2\<bar>;
          score = real (votes li + votes lj) * (0.6 + 0.4 * spread / (if maxS = 0 then 1 else maxS))
      in if score > snd st then (Some (if p1 < p2 then (li, lj) else (lj, li)), score) else st)"

definition bestPair :: "(hline \<Rightarrow> real) \<Rightarrow> hline list \<Rightarrow> (hline \<times> hline) option" where
  "bestPair pos ls =
     fst (foldl (bestPairStep pos ls (maxSpread pos ls)) (None, 0) (pairIndices (length ls)))"

definition quadFromLines :: "hline \<times> hline \<Rightarrow> hline \<times> hline \<Rightarrow> nat \<Rightarrow> nat \<Rightarrow> corners option" where
  "quadFromLines bestH bestV w h =
     (let topLine = fst bestH; bottomLine = snd bestH;
          leftLine = fst bestV; rightLine = snd bestV
      in case (lineIntersection topLine leftLine, lineIntersection topLine rightLine,
               lineIntersection bottomLine rightLine, lineIntersection bottomLine leftLine) of
           (Some tl', Some tr', Some br', Some bl') \<Rightarrow>
             let margin = - 0.1 * real (max w h);
                 limit = 1.1 * real (max w h);
                 pts = [tl', tr', br', bl']
             in if \<exists>i \<in> set [0..<4]. fst (pts ! i) < margin \<or> fst (pts ! i) > limit \<or>
                                       snd (pts ! i) < margin \<or> snd (pts ! i) > limit
                then None
                else
                  let quadArea = 0.5 * \<bar>
                        (fst tr' - fst tl') * (snd bl' - snd tl') - (fst bl' - fst tl') * (snd tr' - snd tl') +
                        (fst br' - fst tr') * (snd tl' - snd tr') - (fst tl' - fst tr') * (snd br' - snd tr') +
                        (fst bl' - fst br') * (snd tr' - snd br') - (fst tr' - fst br') * (snd bl' - snd br') +
                        (fst tl' - fst bl') * (snd br' - snd bl') - (fst br' - fst bl') * (snd tl' - snd bl')\<bar>
                  in if quadArea < 0.1 * real w * real h then None
                     else Some (normalizedCorners pts w h)
         | _ \<Rightarrow> None)"

definition findBestQuad :: "hline list \<Rightarrow> nat \<Rightarrow> nat \<Rightarrow> corners option" where
  "findBestQuad lines w h =
     (if length lines < 4 then None
      else
        let horizontal = filter (\<lambda>l. theta l * 180 / pi > 30 \<and> theta l * 180 / pi < 150) lines;
            vertical = filter (\<lambda>l. theta l * 180 / pi < 60 \<or> theta l * 180 / pi > 120) lines
        in if length horizontal < 2 \<or> length vertical < 2 then None
           else
             let horizontal = take 8 horizontal;
                 vertical = take 8 vertical
             in case (bestPair (\<lambda>l. rho l / sin (theta l)) horizontal,
                      bestPair (\<lambda>l. rho l / cos (theta l)) vertical) of
                  (Some bestH, Some bestV) \<Rightarrow> quadFromLines bestH bestV w h
                | _ \<Rightarrow> None)"



subsection \<open>detectDocument, previewFilters and the message handler\<close>

text \<open>
  The browser is a parameter. For \<open>detectDocument\<close> it loads the payload into an
  \<open>Image\<close>: \<open>imageLoad\<close> is \<open>None\<close> when \<open>onerror\<close> fires, and otherwise gives the size of
  the image and, for a target size, the bytes that \<open>drawImage\<close> and \<open>getImageData\<close>
  return, or \<open>None\<close> when one of the canvas calls throws (the \<open>catch\<close> then resolves \<open>null\<close>).
  For the other two operations \<open>decodeBase64Image\<close> either throws in \<open>atob\<close>, or
  returns a promise that \<open>createImageBitmap\<close> rejects, or yields a bitmap; both
  failures carry the message of their error. \<open>bmpScaled\<close> is the bitmap drawn at another
  size.

  \<open>detectDocument\<close> returns, with the quad, the list of the strategies it has called, in
  the order of the calls; the list is not in the script and records which calls happen.
\<close>

record image =
  imgWidth :: nat
  imgHeight :: nat
  imgPixels :: "nat \<Rightarrow> nat \<Rightarrow> nat list option"

datatype decoded = AtobThrows string | BitmapRejected string | Decoded bitmap "nat \<Rightarrow> nat \<Rightarrow> nat list"

record browser =
  imageLoad :: "string \<Rightarrow> image option"
  decodeBase64Image :: "string \<Rightarrow> decoded"

datatype strategy = GradientRansac | BrightnessSegmentation | EdgeContour | HoughLine

definition downscaledSize :: "nat \<Rightarrow> nat \<Rightarrow> nat \<times> nat" where
  "downscaledSize ow oh =
     (let maxSide = 500 :: real;
          scale = (if real (max ow oh) > maxSide then maxSide / real (max ow oh) else 1)
      in (nat (round (real ow * scale)), nat (round (real oh * scale))))"

definition cascade :: "passes \<Rightarrow> real list \<Rightarrow> nat \<Rightarrow> nat \<Rightarrow> strategy list \<times> corners option" where
  "cascade P gray w h =
     (case gradientRansacDetection P gray w h of
        Some quad \<Rightarrow> ([GradientRansac], Some quad)
      | None \<Rightarrow>
          (case segmentBasedDetection P gray w h of
             Some quad \<Rightarrow> ([GradientRansac, BrightnessSegmentation], Some quad)
           | None \<Rightarrow>
               let edges = cannyEdges P gray w h
               in (case contourBasedDetection P edges w h of
                     Some quad \<Rightarrow> ([GradientRansac, BrightnessSegmentation, EdgeContour], Some quad)
                   | None \<Rightarrow>
                       ([GradientRansac, BrightnessSegmentation, EdgeContour, HoughLine],
                        findBestQuad (houghLines P edges w h) w h))))"

definition detectDocument ::
  "browser \<Rightarrow> passes \<Rightarrow> string \<Rightarrow> strategy list \<times> corners option" where
  "detectDocument env P base64 =
     (case imageLoad env base64 of
        None \<Rightarrow> ([], None)
      | Some img \<Rightarrow>
          let (w, h) = downscaledSize (imgWidth img) (imgHeight img)
          in (case imgPixels img w h of
                None \<Rightarrow> ([], None)
              | Some data \<Rightarrow> cascade P (toGray data w h) w h))"

record previews =
  pv_bw :: "nat list"
  pv_gray :: "nat list"
  pv_color :: "nat list"

definition previewFilters ::
  "bitmap \<Rightarrow> (nat \<Rightarrow> nat \<Rightarrow> nat list) \<Rightarrow> corners \<Rightarrow> string + previews" where
  "previewFilters bmp bmpScaled c =
     (let (sw, sh) = downscaledSize (bmpWidth bmp) (bmpHeight bmp);
          srcData = bmpScaled sw sh;
          srcPts = scaledCorners c sw sh;
          (dw, dh) = outputSize srcPts 50;
          dstPts = [(0, 0), (real dw, 0), (real dw, real dh), (0, real dh)]
      in case computeHomography srcPts dstPts of
           None \<Rightarrow> Inl ''Failed to compute homography''
         | Some H \<Rightarrow>
             (case invert3x3 H of
                None \<Rightarrow> Inl ''Failed to invert homography''
              | Some H_inv \<Rightarrow>
                  let warped = warp srcData sw sh H_inv dw dh
                  in Inr \<lparr>pv_bw = enhance ''bw'' warped dw dh,
                          pv_gray = enhance ''gray'' warped dw dh,
                          pv_color = enhance ''color'' warped dw dh\<rparr>))"

text \<open>
  The handler of \<open>message\<close> events. Its argument is \<open>Inl m\<close> when \<open>JSON.parse\<close> throws an
  error with message \<open>m\<close>, and otherwise the parsed request; a request of another type is
  ignored. The result is the message posted back, if any. \<open>err.message || d\<close> is \<open>d\<close>
  when the message is the empty string. An exception thrown by \<open>atob\<close> leaves
  \<open>processImage\<close> and \<open>previewFilters\<close> before they return a promise, so it reaches the
  handler's own \<open>catch\<close>.
\<close>

datatype request =
    Process string corners string
  | Detect string
  | PreviewFilters string corners
  | OtherType

datatype reply =
    Result processed
  | Corners "corners option"
  | FilterPreviews previews
  | Error string

definition messageOr :: "string \<Rightarrow> string \<Rightarrow> string" where
  "messageOr m d = (if m = [] then d else m)"

definition handleMessage :: "browser \<Rightarrow> passes \<Rightarrow> string + request \<Rightarrow> reply option" where
  "handleMessage env P ev =
     (case ev of
        Inl m \<Rightarrow> Some (Error (''Invalid message: '' @ m))
      | Inr (Process base64 c mode) \<Rightarrow>
          (case decodeBase64Image env base64 of
             AtobThrows m \<Rightarrow> Some (Error (''Invalid message: '' @ m))
           | BitmapRejected m \<Rightarrow> Some (Error (messageOr m ''Processing failed''))
           | Decoded bmp bmpScaled \<Rightarrow>
               (case processImage bmp c mode of
                  Inl m \<Rightarrow> Some (Error (messageOr m ''Processing failed''))
                | Inr r \<Rightarrow> Some (Result r)))
      | Inr (Detect base64) \<Rightarrow> Some (Corners (snd (detectDocument env P base64)))
      | Inr (PreviewFilters base64 c) \<Rightarrow>
          (case decodeBase64Image env base64 of
             AtobThrows m \<Rightarrow> Some (Error (''Invalid message: '' @ m))
           | BitmapRejected m \<Rightarrow> Some (Error (messageOr m ''Preview generation failed''))
           | Decoded bmp bmpScaled \<Rightarrow>
               (case previewFilters bmp bmpScaled c of
                  Inl m \<Rightarrow> Some (Error (messageOr m ''Preview generation failed''))
                | Inr r \<Rightarrow> Some (FilterPreviews r)))
      | Inr OtherType \<Rightarrow> None)"

text \<open>
  Fixtures for the examples below: passes that find nothing except one RANSAC candidate
  whose corners lie just outside a 100 by 100 image, a browser whose \<open>Image\<close> loads every
  payload as 100 by 100 black pixels while \<open>createImageBitmap\<close> rejects it, and a browser
  in which both fail.
\<close>

definition examplePasses :: passes where
  "examplePasses =
     \<lparr>ransacCorners = (\<lambda>gray w h. [Some [(- 15, - 15), (20, - 15), (20, 20), (- 15, 20)]]),
      segmentApprox = (\<lambda>gray w h. []),
      cannyEdges = (\<lambda>gray w h. []),
      contourApprox = (\<lambda>edges w h. []),
      houghLines = (\<lambda>edges w h. [])\<rparr>"

definition exampleBrowser :: browser where
  "exampleBrowser =
     \<lparr>imageLoad = (\<lambda>base64. Some \<lparr>imgWidth = 100, imgHeight = 100,
                                    imgPixels = (\<lambda>w h. Some (replicate (w * h * 4) 0))\<rparr>),
      decodeBase64Image = (\<lambda>base64. BitmapRejected ''The source image could not be decoded.'')\<rparr>"

definition failingBrowser :: browser where
  "failingBrowser =
     \<lparr>imageLoad = (\<lambda>base64. None),
      decodeBase64Image = (\<lambda>base64. BitmapRejected ''The source image could not be decoded.'')\<rparr>"

section \<open>Properties\<close>

subsection \<open>Lists of four points\<close>

lemma length_four_cases:
  "length xs = 4 \<Longrightarrow> \<exists>a b c d. xs = [a, b, c, d]"
  by (auto simp: length_Suc_conv eval_nat_numeral)

lemma sort_key_four:
  assumes "length pts = 4"
  shows "\<exists>s0 s1 s2 s3. sort_key f pts = [s0, s1, s2, s3] \<and>
           f s0 \<le> f s1 \<and> f s1 \<le> f s2 \<and> f s2 \<le> f s3 \<and>
           mset [s0, s1, s2, s3] = mset pts"
proof -
  have "length (sort_key f pts) = 4" using assms by simp
  then obtain s0 s1 s2 s3 where s: "sort_key f pts = [s0, s1, s2, s3]"
    using length_four_cases by blast
  have "sorted (map f (sort_key f pts))" by (rule sorted_sort_key)
  then have "f s0 \<le> f s1" "f s1 \<le> f s2" "f s2 \<le> f s3"
    unfolding s by auto
  moreover have "mset [s0, s1, s2, s3] = mset pts"
    using mset_sort [of f pts] s by simp
  ultimately show ?thesis using s by simp
qed

subsection \<open>orderCorners keeps the four points\<close>

text \<open>
  C10. For a list of exactly four points, the output of \<open>orderCorners\<close> is a permutation
  of the input: the multiset of output points equals the multiset of input points, so no
  point is lost, duplicated or changed.
\<close>

theorem orderCorners_permutation:
  assumes "length pts = 4"
  shows "mset (orderCorners pts) = mset pts"
proof -
  obtain s0 s1 s2 s3 where s: "sort_key snd pts = [s0, s1, s2, s3]"
    and m: "mset [s0, s1, s2, s3] = mset pts"
    using sort_key_four [OF assms, of snd] by auto
  have "mset (orderCorners pts) = mset [s0, s1, s2, s3]"
    unfolding orderCorners_def Let_def s by simp
  with m show ?thesis by simp
qed

theorem orderCorners_permutation_witness:
  "length [(3, 1), (0, 0), (0, 2), (4, 0) :: point] = 4 \<and>
   mset (orderCorners [(3, 1), (0, 0), (0, 2), (4, 0)])
     = mset [(3, 1), (0, 0), (0, 2), (4, 0 :: real)]"
  using orderCorners_permutation [of "[(3, 1), (0, 0), (0, 2), (4, 0)]"] by simp

subsection \<open>orderCorners is idempotent\<close>

lemma orderCorners_again:
  assumes "length pts = 4"
  shows "orderCorners (orderCorners pts) = orderCorners pts"
proof -
  obtain s0 s1 s2 s3 where s: "sort_key snd pts = [s0, s1, s2, s3]"
    and o: "snd s0 \<le> snd s1" "snd s1 \<le> snd s2" "snd s2 \<le> snd s3"
    using sort_key_four [OF assms, of snd] by auto
  show ?thesis
    unfolding orderCorners_def Let_def s using o
    by (auto simp: prod_eq_iff)
qed


text \<open>
  C6. \<open>orderCorners\<close> sorts the four points by y, splits the result into a top and a
  bottom half and sorts each half by x. Applied to a quad it has already ordered, it
  returns the same quad.
\<close>

theorem orderCorners_idempotent:
  assumes "length pts = 4"
  shows "orderCorners (orderCorners pts) = orderCorners pts"
  using assms by (rule orderCorners_again)

theorem orderCorners_idempotent_witness:
  "length [(3, 1), (0, 0), (0, 2), (4, 0) :: point] = 4 \<and>
   orderCorners (orderCorners [(3, 1), (0, 0), (0, 2), (4, 0)])
     = orderCorners [(3, 1), (0, 0), (0, 2), (4, 0 :: real)]"
  using orderCorners_idempotent [of "[(3, 1), (0, 0), (0, 2), (4, 0)]"] by simp


subsection \<open>What validateQuad accepts\<close>

lemma cauchy2:
  fixes a b c d :: real
  shows "\<bar>a * c + b * d\<bar> \<le> sqrt (a * a + b * b) * sqrt (c * c + d * d)"
proof -
  have "(a * c + b * d)\<^sup>2 \<le> (a * a + b * b) * (c * c + d * d)"
  proof -
    have "(a * a + b * b) * (c * c + d * d) - (a * c + b * d)\<^sup>2 = (a * d - b * c)\<^sup>2"
      by (simp add: power2_eq_square algebra_simps)
    moreover have "0 \<le> (a * d - b * c)\<^sup>2" by simp
    ultimately show ?thesis by linarith
  qed
  then have "sqrt ((a * c + b * d)\<^sup>2) \<le> sqrt ((a * a + b * b) * (c * c + d * d))"
    by (rule real_sqrt_le_mono)
  then show ?thesis by (simp add: real_sqrt_mult)
qed



lemma validateQuad_loop_iff:
  "validateQuad_loop pts m is \<longleftrightarrow> (\<forall>i \<in> set is. validateQuad_body pts m i)"
  by (induction "is") auto

lemma validateQuad_body_angle:
  assumes "validateQuad_body pts m i" and "0 < m"
  shows "30 \<le> cornerAngle (pts ! ((i + length pts - 1) mod length pts)) (pts ! i) (pts ! ((i + 1) mod length pts)) \<and>
         cornerAngle (pts ! ((i + length pts - 1) mod length pts)) (pts ! i) (pts ! ((i + 1) mod length pts)) \<le> 150"
proof -
  define n where "n = length pts"
  define a where "a = pts ! ((i + n - 1) mod n)"
  define b where "b = pts ! i"
  define c where "c = pts ! ((i + 1) mod n)"
  define len1 where "len1 = sqrt ((fst a - fst b) * (fst a - fst b) + (snd a - snd b) * (snd a - snd b))"
  define len2 where "len2 = sqrt ((fst c - fst b) * (fst c - fst b) + (snd c - snd b) * (snd c - snd b))"
  define dot where "dot = (fst a - fst b) * (fst c - fst b) + (snd a - snd b) * (snd c - snd b)"
  have body: "validateQuad_body pts m i =
     (if len1 < m \<or> len2 < m then False
      else if len1 * len2 = 0 then True
      else if arccos (max (- 1) (min 1 (dot / (len1 * len2)))) * 180 / pi < 30 \<or>
              arccos (max (- 1) (min 1 (dot / (len1 * len2)))) * 180 / pi > 150 then False else True)"
    unfolding validateQuad_body_def Let_def n_def a_def b_def c_def len1_def len2_def dot_def ..
  from assms(1) have l: "\<not> len1 < m" "\<not> len2 < m"
    unfolding body by (simp_all split: if_splits)
  with \<open>0 < m\<close> have pos: "0 < len1" "0 < len2" by auto
  then have nz: "len1 * len2 \<noteq> 0" by simp
  have cs: "\<bar>dot\<bar> \<le> len1 * len2" unfolding dot_def len1_def len2_def by (rule cauchy2)
  define q where "q = dot / (len1 * len2)"
  have "\<bar>q\<bar> \<le> 1" unfolding q_def using cs pos by (simp add: abs_mult)
  then have "max (- 1) (min 1 q) = q" by linarith
  then have clamp: "max (- 1) (min 1 (dot / (len1 * len2))) = dot / (len1 * len2)"
    unfolding q_def .
  have ca: "cornerAngle a b c = arccos (dot / (len1 * len2)) * 180 / pi"
    unfolding cornerAngle_def dot_def len1_def len2_def by (simp add: power2_eq_square)
  from assms(1) nz l
  have "\<not> (arccos (dot / (len1 * len2)) * 180 / pi < 30 \<or> arccos (dot / (len1 * len2)) * 180 / pi > 150)"
    unfolding body clamp by (simp split: if_splits)
  then show ?thesis using ca unfolding a_def b_def c_def n_def by simp
qed


lemma contourArea_four:
  "contourArea [a, b, c, d] =
     \<bar>fst a * snd b - fst b * snd a + (fst b * snd c - fst c * snd b)
        + (fst c * snd d - fst d * snd c) + (fst d * snd a - fst a * snd d)\<bar> / 2"
  by (simp add: contourArea_def upt_conv_Cons Let_def)

lemma upt_four: "[0..<4] = [0, 1, 2, 3]"
  by (simp add: upt_conv_Cons)

lemma validateQuad_iff:
  "validateQuad pts w h \<longleftrightarrow>
     isConvex pts \<and> \<not> contourArea pts < 0.1 * real w * real h \<and>
     validateQuad_loop pts (real (min w h) * 0.1) [0..<length pts]"
  unfolding validateQuad_def by auto

text \<open>
  C7. A four-point polygon that \<open>validateQuad\<close> accepts on an image of \<open>w\<close> by \<open>h\<close>
  pixels has shoelace area at least \<open>0.1 * w * h\<close>, and the angle at each of its four
  vertices lies between 30 and 150 degrees.
\<close>

theorem validateQuad_area_and_angles:
  assumes "validateQuad [a, b, c, d] w h" and "0 < w" and "0 < h"
  shows "0.1 * real w * real h \<le> contourArea [a, b, c, d] \<and>
         30 \<le> cornerAngle d a b \<and> cornerAngle d a b \<le> 150 \<and>
         30 \<le> cornerAngle a b c \<and> cornerAngle a b c \<le> 150 \<and>
         30 \<le> cornerAngle b c d \<and> cornerAngle b c d \<le> 150 \<and>
         30 \<le> cornerAngle c d a \<and> cornerAngle c d a \<le> 150"
proof -
  define m where "m = real (min w h) * 0.1"
  have m: "0 < m" using assms(2,3) by (simp add: m_def)
  from assms(1) have area: "\<not> contourArea [a, b, c, d] < 0.1 * real w * real h"
    and loop: "validateQuad_loop [a, b, c, d] m [0..<length [a, b, c, d]]"
    unfolding validateQuad_iff m_def by blast+
  have body: "validateQuad_body [a, b, c, d] m 0" "validateQuad_body [a, b, c, d] m 1"
    "validateQuad_body [a, b, c, d] m 2" "validateQuad_body [a, b, c, d] m 3"
    using loop unfolding validateQuad_loop_iff by (simp_all add: eval_nat_numeral)
  have "30 \<le> cornerAngle d a b \<and> cornerAngle d a b \<le> 150"
    using validateQuad_body_angle [OF body(1) m] by simp
  moreover have "30 \<le> cornerAngle a b c \<and> cornerAngle a b c \<le> 150"
    using validateQuad_body_angle [OF body(2) m] by simp
  moreover have "30 \<le> cornerAngle b c d \<and> cornerAngle b c d \<le> 150"
    using validateQuad_body_angle [OF body(3) m] by simp
  moreover have "30 \<le> cornerAngle c d a \<and> cornerAngle c d a \<le> 150"
    using validateQuad_body_angle [OF body(4) m] by simp
  ultimately show ?thesis using area by simp
qed

lemma validateQuad_unit_square:
  "validateQuad [(0, 0), (1, 0), (1, 1), (0, 1)] 1 1"
  by (simp add: validateQuad_def isConvex_def contourArea_four upt_four
      validateQuad_body_def Let_def)

theorem validateQuad_area_and_angles_witness:
  "validateQuad [(0, 0), (1, 0), (1, 1), (0, 1)] 1 1 \<and> (0::nat) < 1 \<and>
   0.1 * real 1 * real 1 \<le> contourArea [(0, 0), (1, 0), (1, 1), (0, 1)] \<and>
   30 \<le> cornerAngle (0, 1) (0, 0) (1, 0) \<and> cornerAngle (0, 1) (0, 0) (1, 0) \<le> 150 \<and>
   30 \<le> cornerAngle (0, 0) (1, 0) (1, 1) \<and> cornerAngle (0, 0) (1, 0) (1, 1) \<le> 150 \<and>
   30 \<le> cornerAngle (1, 0) (1, 1) (0, 1) \<and> cornerAngle (1, 0) (1, 1) (0, 1) \<le> 150 \<and>
   30 \<le> cornerAngle (1, 1) (0, 1) (0, 0) \<and> cornerAngle (1, 1) (0, 1) (0, 0) \<le> 150"
  using validateQuad_area_and_angles [OF validateQuad_unit_square] validateQuad_unit_square
  by simp


subsection \<open>The perspective warp fills every destination pixel once\<close>

lemma loop_row_flat:
  "map (\<lambda>p. g (p div dw) (p mod dw)) [dw * dh..<dw * dh + dw] = map (\<lambda>dx. g dh dx) [0..<dw]"
proof (rule nth_equalityI)
  show "length (map (\<lambda>p. g (p div dw) (p mod dw)) [dw * dh..<dw * dh + dw]) = length (map (g dh) [0..<dw])"
    by simp
next
  fix i assume "i < length (map (\<lambda>p. g (p div dw) (p mod dw)) [dw * dh..<dw * dh + dw])"
  then have i: "i < dw" by simp
  then have "(dw * dh + i) div dw = dh" "(dw * dh + i) mod dw = i" by simp_all
  then show "map (\<lambda>p. g (p div dw) (p mod dw)) [dw * dh..<dw * dh + dw] ! i = map (g dh) [0..<dw] ! i"
    using i by simp
qed

lemma nested_loops_flat:
  "concat (map (\<lambda>dy. concat (map (\<lambda>dx. g dy dx) [0..<dw])) [0..<dh])
     = concat (map (\<lambda>p. g (p div dw) (p mod dw)) [0..<dw * dh])"
proof (induction dh)
  case 0
  then show ?case by simp
next
  case (Suc dh)
  have e: "dw * Suc dh = dw * dh + dw" by simp
  have "[0..<dw * Suc dh] = [0..<dw * dh] @ [dw * dh..<dw * dh + dw]"
    unfolding e by (rule upt_add_eq_append) simp
  then have "concat (map (\<lambda>p. g (p div dw) (p mod dw)) [0..<dw * Suc dh])
      = concat (map (\<lambda>p. g (p div dw) (p mod dw)) [0..<dw * dh])
        @ concat (map (\<lambda>p. g (p div dw) (p mod dw)) [dw * dh..<dw * dh + dw])"
    by simp
  also have "\<dots> = concat (map (\<lambda>dy. concat (map (\<lambda>dx. g dy dx) [0..<dw])) [0..<dh])
        @ concat (map (\<lambda>dx. g dh dx) [0..<dw])"
    unfolding loop_row_flat Suc.IH ..
  finally show ?case by simp
qed

lemma warp_pixel_indices:
  "map fst (warp_pixel srcData sw sh H_inv dw dy dx)
     = pixel_bytes (inSource sw sh H_inv dy dx) (dy * dw + dx)"
  by (simp add: warp_pixel_def pixel_bytes_def Let_def mult.commute)

lemma warp_stores_indices:
  "map fst (warp_stores srcData sw sh H_inv dw dh)
     = concat (map (\<lambda>p. pixel_bytes (inSource sw sh H_inv (p div dw) (p mod dw)) p)
                   [0..<dw * dh])"
proof -
  have "map fst (warp_stores srcData sw sh H_inv dw dh)
          = concat (map (\<lambda>dy. concat (map (\<lambda>dx. pixel_bytes (inSource sw sh H_inv dy dx) (dy * dw + dx))
                                           [0..<dw])) [0..<dh])"
    by (simp add: warp_stores_def map_concat o_def warp_pixel_indices)
  also have "\<dots> = concat (map (\<lambda>p. pixel_bytes (inSource sw sh H_inv (p div dw) (p mod dw))
                                      (p div dw * dw + p mod dw)) [0..<dw * dh])"
    by (rule nested_loops_flat)
  finally show ?thesis by simp
qed

lemma pixel_bytes_range:
  "k \<in> set (pixel_bytes ins p) \<Longrightarrow> 4 * p \<le> k \<and> k < 4 * p + 4"
  by (auto simp: pixel_bytes_def split: if_splits)

lemma pixel_bytes_sorted: "sorted_wrt (<) (pixel_bytes ins p)"
  by (simp add: pixel_bytes_def)

lemma all_bytes_range:
  "k \<in> set (concat (map (\<lambda>p. pixel_bytes (f p) p) [0..<n])) \<Longrightarrow> k < 4 * n"
  by (auto dest!: pixel_bytes_range)

lemma all_bytes_sorted:
  "sorted_wrt (<) (concat (map (\<lambda>p. pixel_bytes (f p) p) [0..<n]))"
proof (induction n)
  case 0
  then show ?case by simp
next
  case (Suc n)
  have "k < k'" if "k \<in> set (concat (map (\<lambda>p. pixel_bytes (f p) p) [0..<n]))"
    and "k' \<in> set (pixel_bytes (f n) n)" for k k'
    using all_bytes_range [OF that(1)] pixel_bytes_range [OF that(2)] by simp
  then show ?case using Suc pixel_bytes_sorted [of "f n" n]
    by (simp add: sorted_wrt_append)
qed

lemma foldl_store_length: "length (foldl store out ss) = length out"
  by (induction ss arbitrary: out) (simp_all add: store_def)

lemma foldl_store_other:
  "k \<notin> fst ` set ss \<Longrightarrow> foldl store out ss ! k = out ! k"
  by (induction ss arbitrary: out) (auto simp: store_def)

lemma foldl_store_hit:
  "distinct (map fst ss) \<Longrightarrow> (k, v) \<in> set ss \<Longrightarrow> k < length out
     \<Longrightarrow> foldl store out ss ! k = v"
proof (induction ss arbitrary: out)
  case Nil
  then show ?case by simp
next
  case (Cons s ss)
  show ?case
  proof (cases "s = (k, v)")
    case True
    then have "k \<notin> fst ` set ss" using Cons.prems(1) by auto
    then have "foldl store (store out s) ss ! k = store out s ! k"
      by (rule foldl_store_other)
    moreover have "store out s ! k = v" using True Cons.prems(3) by (simp add: store_def)
    ultimately show ?thesis by simp
  next
    case False
    then have "(k, v) \<in> set ss" using Cons.prems(2) by simp
    moreover have "k < length (store out s)" using Cons.prems(3) by (simp add: store_def)
    ultimately have "foldl store (store out s) ss ! k = v"
      using Cons.IH Cons.prems(1) by simp
    then show ?thesis by simp
  qed
qed

lemma in_concat_map:
  "x \<in> set (f i) \<Longrightarrow> i \<in> set js \<Longrightarrow> x \<in> set (concat (map f js))"
  by auto

lemma count_list_distinct:
  "distinct xs \<Longrightarrow> x \<in> set xs \<Longrightarrow> count_list xs x = 1"
  by (induction xs) (auto simp: count_list_0_iff)

lemma pixel_number:
  fixes dx dy dw dh :: nat
  assumes "dx < dw" and "dy < dh"
  shows "dy * dw + dx < dw * dh" and "(dy * dw + dx) div dw = dy" and "(dy * dw + dx) mod dw = dx"
proof -
  have "dy * dw + dx < dy * dw + dw" using assms(1) by simp
  also have "\<dots> = dw * Suc dy" by simp
  also have "\<dots> \<le> dw * dh" using assms(2) by (intro mult_le_mono2) simp
  finally show "dy * dw + dx < dw * dh" .
  show "(dy * dw + dx) div dw = dy" "(dy * dw + dx) mod dw = dx"
    using assms(1) by simp_all
qed

lemma stored_bytes_of_pixel:
  assumes "dx < dw" and "dy < dh"
  shows "k \<in> set (map fst (warp_stores srcData sw sh H_inv dw dh)) \<and> k div 4 = dy * dw + dx
           \<longleftrightarrow> k \<in> set (pixel_bytes (inSource sw sh H_inv dy dx) (dy * dw + dx))"
proof -
  let ?p = "dy * dw + dx"
  let ?f = "\<lambda>p. inSource sw sh H_inv (p div dw) (p mod dw)"
  have fp: "?f ?p = inSource sw sh H_inv dy dx"
    using pixel_number(2,3) [OF assms] by simp
  show ?thesis
  proof
    assume l: "k \<in> set (map fst (warp_stores srcData sw sh H_inv dw dh)) \<and> k div 4 = ?p"
    then obtain q where "k \<in> set (pixel_bytes (?f q) q)"
      unfolding warp_stores_indices by auto
    moreover from this have "k div 4 = q" using pixel_bytes_range [of k "?f q" q] by arith
    ultimately show "k \<in> set (pixel_bytes (inSource sw sh H_inv dy dx) ?p)"
      using l fp by simp
  next
    assume r: "k \<in> set (pixel_bytes (inSource sw sh H_inv dy dx) ?p)"
    then have "k div 4 = ?p" using pixel_bytes_range [OF r] by arith
    moreover have "k \<in> set (pixel_bytes (?f ?p) ?p)" using r fp by simp
    then have "k \<in> set (map fst (warp_stores srcData sw sh H_inv dw dh))"
      unfolding warp_stores_indices
      by (rule in_concat_map [where f = "\<lambda>p. pixel_bytes (?f p) p"])
        (use pixel_number(1) [OF assms] in simp)
    ultimately show "k \<in> set (map fst (warp_stores srcData sw sh H_inv dw dh)) \<and> k div 4 = ?p"
      by simp
  qed
qed

lemma warp_stores_distinct:
  "distinct (map fst (warp_stores srcData sw sh H_inv dw dh))"
proof -
  have "sorted_wrt (<) (map fst (warp_stores srcData sw sh H_inv dw dh))"
    unfolding warp_stores_indices by (rule all_bytes_sorted)
  then show ?thesis by (simp add: strict_sorted_iff)
qed

lemma warp_pixel_in_stores:
  assumes "dx < dw" and "dy < dh"
  shows "set (warp_pixel srcData sw sh H_inv dw dy dx)
           \<subseteq> set (warp_stores srcData sw sh H_inv dw dh)"
proof
  fix s assume "s \<in> set (warp_pixel srcData sw sh H_inv dw dy dx)"
  then have "s \<in> set (concat (map (\<lambda>dx. warp_pixel srcData sw sh H_inv dw dy dx) [0..<dw]))"
    by (rule in_concat_map) (use assms(1) in simp)
  then show "s \<in> set (warp_stores srcData sw sh H_inv dw dh)"
    unfolding warp_stores_def by (rule in_concat_map) (use assms(2) in simp)
qed

lemma warp_length: "length (warp srcData sw sh H_inv dw dh) = dw * dh * 4"
  by (simp add: warp_def foldl_store_length)

text \<open>
  C5. The loops of \<open>warp\<close> perform no two stores to the same byte of the output. For
  every destination pixel \<open>(dx, dy)\<close> the alpha byte is stored exactly once, and each
  colour byte exactly once when the inverse-mapped coordinate lies in the source image
  and never otherwise. A pixel whose coordinate lies outside the source image (or is not
  a finite number, the divisor being zero) ends up black, \<open>0, 0, 0\<close>, with alpha \<open>255\<close>.
\<close>

theorem warp_fills_each_pixel_once:
  fixes srcData :: "nat list" and sw sh dw dh dx dy :: nat and H_inv :: "real list"
  assumes "dx < dw" and "dy < dh"
  defines "idx \<equiv> (dy * dw + dx) * 4"
  defines "stored \<equiv> map fst (warp_stores srcData sw sh H_inv dw dh)"
  defines "out \<equiv> warp srcData sw sh H_inv dw dh"
  shows "distinct stored \<and>
         count_list stored (idx + 3) = 1 \<and>
         (\<forall>c<3. count_list stored (idx + c) = (if inSource sw sh H_inv dy dx then 1 else 0)) \<and>
         (\<not> inSource sw sh H_inv dy dx \<longrightarrow>
            out ! idx = 0 \<and> out ! (idx + 1) = 0 \<and> out ! (idx + 2) = 0 \<and> out ! (idx + 3) = 255)"
proof -
  let ?p = "dy * dw + dx"
  let ?ins = "inSource sw sh H_inv dy dx"
  have idx: "idx = 4 * ?p" by (simp add: idx_def)
  have d: "distinct stored" unfolding stored_def by (rule warp_stores_distinct)
  have mem: "k \<in> set stored \<longleftrightarrow> k \<in> set (pixel_bytes ?ins ?p)" if "k div 4 = ?p" for k
    using stored_bytes_of_pixel [OF assms(1,2), of k srcData sw sh H_inv] that
    unfolding stored_def by simp
  have "idx + 3 \<in> set stored"
    using mem [of "idx + 3"] by (simp add: idx pixel_bytes_def)
  with d have alpha: "count_list stored (idx + 3) = 1" by (rule count_list_distinct)
  have colour: "idx + c \<in> set stored \<longleftrightarrow> ?ins" if "c < 3" for c
  proof -
    have "(idx + c) div 4 = ?p" using that by (simp add: idx)
    then show ?thesis using mem [of "idx + c"] that
      by (auto simp: idx pixel_bytes_def)
  qed
  have rgb: "count_list stored (idx + c) = (if ?ins then 1 else 0)" if "c < 3" for c
    using colour [OF that] d by (simp add: count_list_distinct count_list_0_iff)
  have black: "out ! idx = 0 \<and> out ! (idx + 1) = 0 \<and> out ! (idx + 2) = 0 \<and> out ! (idx + 3) = 255"
    if out: "\<not> ?ins"
  proof -
    have inb: "idx + 3 < dw * dh * 4"
      using pixel_number(1) [OF assms(1,2)] by (simp add: idx)
    have zero: "out ! (idx + c) = 0" if "c < 3" for c
    proof -
      have "idx + c \<notin> fst ` set (warp_stores srcData sw sh H_inv dw dh)"
        using colour [OF that] out by (simp add: stored_def)
      then have "out ! (idx + c) = replicate (dw * dh * 4) 0 ! (idx + c)"
        unfolding out_def warp_def by (rule foldl_store_other)
      then show ?thesis using inb that by simp
    qed
    have "(idx + 3, 255) \<in> set (warp_pixel srcData sw sh H_inv dw dy dx)"
      by (simp add: warp_pixel_def Let_def idx_def)
    then have "(idx + 3, 255) \<in> set (warp_stores srcData sw sh H_inv dw dh)"
      using warp_pixel_in_stores [OF assms(1,2)] by blast
    then have "out ! (idx + 3) = 255"
      unfolding out_def warp_def using inb
      by (intro foldl_store_hit warp_stores_distinct) simp_all
    then show ?thesis using zero [of 0] zero [of 1] zero [of 2] by simp
  qed
  from rgb have "\<forall>c<3. count_list stored (idx + c) = (if ?ins then 1 else 0)" by simp
  with d alpha black show ?thesis by simp
qed

theorem warp_fills_each_pixel_once_witness:
  "(1::nat) < 2 \<and> (0::nat) < 1 \<and>
   \<not> inSource 1 1 [1, 0, 0, 0, 1, 0, 0, 0, 1] 0 1 \<and>
   warp [10, 20, 30, 255] 1 1 [1, 0, 0, 0, 1, 0, 0, 0, 1] 2 1 ! 4 = 0 \<and>
   warp [10, 20, 30, 255] 1 1 [1, 0, 0, 0, 1, 0, 0, 0, 1] 2 1 ! 5 = 0 \<and>
   warp [10, 20, 30, 255] 1 1 [1, 0, 0, 0, 1, 0, 0, 0, 1] 2 1 ! 6 = 0 \<and>
   warp [10, 20, 30, 255] 1 1 [1, 0, 0, 0, 1, 0, 0, 0, 1] 2 1 ! 7 = 255 \<and>
   count_list (map fst (warp_stores [10, 20, 30, 255] 1 1 [1, 0, 0, 0, 1, 0, 0, 0, 1] 2 1)) 7 = 1"
  using warp_fills_each_pixel_once
    [where dx = 1 and dw = 2 and dy = 0 and dh = 1 and sw = 1 and sh = 1
       and H_inv = "[1, 0, 0, 0, 1, 0, 0, 0, 1]" and srcData = "[10, 20, 30, 255]"]
  by (simp add: inSource_def)


subsection \<open>Gaussian elimination solves the system\<close>




















subsection \<open>The homography maps the source corners onto the destination corners\<close>








subsection \<open>Round trip through the inverse homography\<close>









subsection \<open>Adaptive threshold of a uniform image\<close>














subsection \<open>A degenerate quad cannot be rectified\<close>











subsection \<open>The cascade tries its strategies in order\<close>

lemma sqrt_1225: "sqrt 1225 = 35"
proof -
  have "sqrt (35 * 35) = \<bar>35\<bar>" by (rule real_sqrt_abs2)
  then show ?thesis by simp
qed

lemma example_orderCorners:
  "orderCorners [(- 15, - 15), (20, - 15), (20, 20), (- 15, 20)]
     = [(- 15, - 15), (20, - 15), (20, 20), (- 15, 20)]"
  by (simp add: orderCorners_def Let_def)

lemma example_validateQuad:
  "validateQuad [(- 15, - 15), (20, - 15), (20, 20), (- 15, 20)] 100 100"
  by (simp add: validateQuad_def isConvex_def contourArea_four upt_four
      validateQuad_body_def Let_def sqrt_1225)

lemma example_ransacSelect:
  "ransacSelect 100 100 [Some [(- 15, - 15), (20, - 15), (20, 20), (- 15, 20)]]
     = Some \<lparr>tl_pt = (0, 0), tr_pt = (1 / 5, 0), br_pt = (1 / 5, 1 / 5), bl_pt = (0, 1 / 5)\<rparr>"
  by (simp add: example_orderCorners example_validateQuad cornersInBounds_def upt_four
      normalizedCorners_def clamp01_def)

lemma example_downscaledSize: "downscaledSize 100 100 = (100, 100)"
  by (simp add: downscaledSize_def)

lemma example_gradientRansac:
  "gradientRansacDetection examplePasses gray 100 100
     = Some \<lparr>tl_pt = (0, 0), tr_pt = (1 / 5, 0), br_pt = (1 / 5, 1 / 5), bl_pt = (0, 1 / 5)\<rparr>"
  unfolding gradientRansacDetection_def examplePasses_def
  by (simp del: ransacSelect.simps add: example_ransacSelect)

lemma example_detectDocument:
  "detectDocument exampleBrowser examplePasses base64
     = ([GradientRansac],
        Some \<lparr>tl_pt = (0, 0), tr_pt = (1 / 5, 0), br_pt = (1 / 5, 1 / 5), bl_pt = (0, 1 / 5)\<rparr>)"
  by (simp add: detectDocument_def exampleBrowser_def example_downscaledSize cascade_def
      example_gradientRansac)

text \<open>
  C2. On an image that loads and whose pixels can be read, \<open>detectDocument\<close> calls
  gradient-direction RANSAC first; it calls brightness segmentation only when RANSAC
  returned none, the edge-contour strategy only when both returned none, and the
  Hough-line strategy only when all three returned none, in that order. Its result is
  the quad of the first strategy that returned one, and none exactly when all four
  returned none.
\<close>

theorem detectDocument_cascade_order:
  fixes env :: browser and P :: passes
  assumes "imageLoad env base64 = Some img"
    and "downscaledSize (imgWidth img) (imgHeight img) = (w, h)"
    and "imgPixels img w h = Some data"
  defines "gray \<equiv> toGray data w h"
  defines "edges \<equiv> cannyEdges P gray w h"
  defines "r1 \<equiv> gradientRansacDetection P gray w h"
  defines "r2 \<equiv> segmentBasedDetection P gray w h"
  defines "r3 \<equiv> contourBasedDetection P edges w h"
  defines "r4 \<equiv> findBestQuad (houghLines P edges w h) w h"
  defines "called \<equiv> fst (detectDocument env P base64)"
  defines "quad \<equiv> snd (detectDocument env P base64)"
  shows "called = take (length called)
                    [GradientRansac, BrightnessSegmentation, EdgeContour, HoughLine] \<and>
         GradientRansac \<in> set called \<and>
         (BrightnessSegmentation \<in> set called \<longleftrightarrow> r1 = None) \<and>
         (EdgeContour \<in> set called \<longleftrightarrow> r1 = None \<and> r2 = None) \<and>
         (HoughLine \<in> set called \<longleftrightarrow> r1 = None \<and> r2 = None \<and> r3 = None) \<and>
         quad = (if r1 \<noteq> None then r1 else if r2 \<noteq> None then r2
                 else if r3 \<noteq> None then r3 else r4) \<and>
         (quad = None \<longleftrightarrow> r1 = None \<and> r2 = None \<and> r3 = None \<and> r4 = None)"
proof -
  have d: "detectDocument env P base64 = cascade P gray w h"
    using assms(1-3) by (simp add: detectDocument_def gray_def)
  show ?thesis
    unfolding called_def quad_def d
    by (cases r1; cases r2; cases r3)
       (simp_all add: cascade_def Let_def r1_def [symmetric] r2_def [symmetric]
          edges_def [symmetric] r3_def [symmetric] r4_def [symmetric])
qed

theorem detectDocument_cascade_order_witness:
  "imageLoad exampleBrowser ''doc''
     = Some \<lparr>imgWidth = 100, imgHeight = 100,
              imgPixels = (\<lambda>w h. Some (replicate (w * h * 4) 0))\<rparr> \<and>
   downscaledSize 100 100 = (100, 100) \<and>
   fst (detectDocument exampleBrowser examplePasses ''doc'') = [GradientRansac] \<and>
   BrightnessSegmentation \<notin> set (fst (detectDocument exampleBrowser examplePasses ''doc'')) \<and>
   gradientRansacDetection examplePasses (toGray (replicate (100 * 100 * 4) 0) 100 100) 100 100
     \<noteq> None \<and>
   snd (detectDocument exampleBrowser examplePasses ''doc'')
     = gradientRansacDetection examplePasses (toGray (replicate (100 * 100 * 4) 0) 100 100) 100 100"
proof -
  let ?img = "\<lparr>imgWidth = 100, imgHeight = 100,
              imgPixels = (\<lambda>w h. Some (replicate (w * h * 4) 0))\<rparr>"
  have a: "imageLoad exampleBrowser ''doc'' = Some ?img" by (simp add: exampleBrowser_def)
  have b: "downscaledSize (imgWidth ?img) (imgHeight ?img) = (100, 100)"
    by (simp add: example_downscaledSize)
  have c: "imgPixels ?img 100 100 = Some (replicate (100 * 100 * 4) 0)" by simp
  note t = detectDocument_cascade_order [OF a b c, of examplePasses]
  have r: "gradientRansacDetection examplePasses (toGray (replicate (100 * 100 * 4) 0) 100 100)
             100 100 \<noteq> None"
    by (simp only: example_gradientRansac) simp
  have f: "fst (detectDocument exampleBrowser examplePasses ''doc'') = [GradientRansac]"
    by (simp only: example_detectDocument fst_conv)
  show ?thesis
    using a example_downscaledSize f r t by simp
qed

subsection \<open>Undecodable payloads\<close>

lemma messageOr_nonempty: "d \<noteq> [] \<Longrightarrow> messageOr m d \<noteq> []"
  by (simp add: messageOr_def)

text \<open>
  C9, as the script has it. For a payload that neither decoder accepts, \<open>process\<close> and
  \<open>previewFilters\<close> post an \<open>error\<close> message that carries a non-empty message string and
  nothing else; \<open>detect\<close> posts \<open>corners: null\<close>, the reply it also gives when no strategy
  finds a quad.
\<close>

theorem undecodable_payload_replies:
  assumes "\<forall>bmp scaled. decodeBase64Image env base64 \<noteq> Decoded bmp scaled"
    and "imageLoad env base64 = None"
  shows "(\<exists>msg. msg \<noteq> [] \<and> handleMessage env P (Inr (Process base64 c mode)) = Some (Error msg)) \<and>
         (\<exists>msg. msg \<noteq> [] \<and> handleMessage env P (Inr (PreviewFilters base64 c)) = Some (Error msg)) \<and>
         handleMessage env P (Inr (Detect base64)) = Some (Corners None)"
proof -
  have d: "handleMessage env P (Inr (Detect base64)) = Some (Corners None)"
    using assms(2) by (simp add: handleMessage_def detectDocument_def)
  show ?thesis
  proof (cases "decodeBase64Image env base64")
    case (AtobThrows m)
    then show ?thesis using d by (simp add: handleMessage_def)
  next
    case (BitmapRejected m)
    then show ?thesis using d by (simp add: handleMessage_def messageOr_nonempty)
  next
    case (Decoded bmp scaled)
    then show ?thesis using assms(1) by simp
  qed
qed

theorem undecodable_payload_replies_witness:
  "decodeBase64Image failingBrowser ''not an image''
     = BitmapRejected ''The source image could not be decoded.'' \<and>
   imageLoad failingBrowser ''not an image'' = None \<and>
   (\<exists>msg. msg \<noteq> [] \<and>
      handleMessage failingBrowser examplePasses
        (Inr (Process ''not an image''
           \<lparr>tl_pt = (0, 0), tr_pt = (1, 0), br_pt = (1, 1), bl_pt = (0, 1)\<rparr> ''bw''))
        = Some (Error msg)) \<and>
   (\<exists>msg. msg \<noteq> [] \<and>
      handleMessage failingBrowser examplePasses
        (Inr (PreviewFilters ''not an image''
           \<lparr>tl_pt = (0, 0), tr_pt = (1, 0), br_pt = (1, 1), bl_pt = (0, 1)\<rparr>))
        = Some (Error msg)) \<and>
   handleMessage failingBrowser examplePasses (Inr (Detect ''not an image'')) = Some (Corners None)"
proof -
  have a: "decodeBase64Image failingBrowser ''not an image''
     = BitmapRejected ''The source image could not be decoded.''"
    by (simp add: failingBrowser_def)
  then have b: "\<forall>bmp scaled. decodeBase64Image failingBrowser ''not an image'' \<noteq> Decoded bmp scaled"
    by simp
  have c: "imageLoad failingBrowser ''not an image'' = None" by (simp add: failingBrowser_def)
  show ?thesis
    using a c undecodable_payload_replies [OF b c, of examplePasses
      "\<lparr>tl_pt = (0, 0), tr_pt = (1, 0), br_pt = (1, 1), bl_pt = (0, 1)\<rparr>" "''bw''"]
    by simp
qed

text \<open>
  The claim as the specification states it fails for \<open>detect\<close>: the undecodable payload
  is answered with \<open>corners: null\<close>, not with an error.
\<close>

theorem detect_undecodable_is_silent:
  "imageLoad failingBrowser ''not an image'' = None \<and>
   handleMessage failingBrowser examplePasses (Inr (Detect ''not an image''))
     = Some (Corners None)"
  by (simp add: handleMessage_def detectDocument_def failingBrowser_def)

subsection \<open>What the cascade returns has been validated\<close>















text \<open>
  The Hough-line strategy does not call \<open>validateQuad\<close>: \<open>findBestQuad\<close> tests the four
  intersections against the image bounds and an area of its own. Two horizontal lines
  six pixels apart give a quad that it returns and that \<open>validateQuad\<close> rejects.
\<close>

lemma example_lineIntersection:
  "lineIntersection \<lparr>rho = y, theta = pi / 2, votes = n\<rparr> \<lparr>rho = x, theta = 0, votes = m\<rparr>
     = Some (x, y)"
  by (simp add: lineIntersection_def Let_def)

lemma hough_quad_not_validated:
  "findBestQuad [\<lparr>rho = 10, theta = pi / 2, votes = 50\<rparr>, \<lparr>rho = 16, theta = pi / 2, votes = 50\<rparr>,
                 \<lparr>rho = 0, theta = 0, votes = 50\<rparr>, \<lparr>rho = 99, theta = 0, votes = 50\<rparr>] 100 100
     = Some (normalizedCorners [(0, 10), (99, 10), (99, 16), (0, 16)] 100 100) \<and>
   \<not> validateQuad [(0, 10), (99, 10), (99, 16), (0, 16)] 100 100"
proof -
  have v: "\<not> validateQuad [(0, 10), (99, 10), (99, 16), (0, 16)] 100 100"
    by (simp add: validateQuad_def contourArea_four)
  have pairs: "pairIndices (Suc (Suc 0)) = [(0, Suc 0)]"
    by (simp add: pairIndices_def upt_conv_Cons)
  have bh: "bestPair (\<lambda>l. rho l / sin (theta l))
              [\<lparr>rho = 10, theta = pi / 2, votes = 50\<rparr>, \<lparr>rho = 16, theta = pi / 2, votes = 50\<rparr>]
            = Some (\<lparr>rho = 10, theta = pi / 2, votes = 50\<rparr>, \<lparr>rho = 16, theta = pi / 2, votes = 50\<rparr>)"
    by (simp add: bestPair_def maxSpread_def pairs bestPairStep_def Let_def)
  have bv: "bestPair (\<lambda>l. rho l / cos (theta l))
              [\<lparr>rho = 0, theta = 0, votes = 50\<rparr>, \<lparr>rho = 99, theta = 0, votes = 50\<rparr>]
            = Some (\<lparr>rho = 0, theta = 0, votes = 50\<rparr>, \<lparr>rho = 99, theta = 0, votes = 50\<rparr>)"
    by (simp add: bestPair_def maxSpread_def pairs bestPairStep_def Let_def)
  have q: "quadFromLines
             (\<lparr>rho = 10, theta = pi / 2, votes = 50\<rparr>, \<lparr>rho = 16, theta = pi / 2, votes = 50\<rparr>)
             (\<lparr>rho = 0, theta = 0, votes = 50\<rparr>, \<lparr>rho = 99, theta = 0, votes = 50\<rparr>) 100 100
           = Some (normalizedCorners [(0, 10), (99, 10), (99, 16), (0, 16)] 100 100)"
    by (simp add: quadFromLines_def Let_def example_lineIntersection upt_four)
  have "findBestQuad [\<lparr>rho = 10, theta = pi / 2, votes = 50\<rparr>, \<lparr>rho = 16, theta = pi / 2, votes = 50\<rparr>,
                 \<lparr>rho = 0, theta = 0, votes = 50\<rparr>, \<lparr>rho = 99, theta = 0, votes = 50\<rparr>] 100 100
     = Some (normalizedCorners [(0, 10), (99, 10), (99, 16), (0, 16)] 100 100)"
    by (simp add: findBestQuad_def Let_def bh bv q)
  then show ?thesis using v by simp
qed

end
